theory Spec2Isabelle
  imports Main "HOL-Library.Word"
begin

unbundle bit_operations_syntax

section \<open>Shared data: panics, strings, headers\<close>

text \<open>
  A Go panic ends the call that raises it. The three panics the modelled code can raise:
  an index beyond the length of a slice, a nil pointer dereference, and the explicit
  \<^verbatim>\<open>panic(err)\<close> of the URL constructors.
\<close>

datatype panic = IndexOutOfRange | NilDereference | PanicErr

text \<open>
  \<^verbatim>\<open>strings.Split(s, "/")\<close>: the pieces of \<open>s\<close> between the separators; a string
  with \<open>n\<close> separators has \<open>n + 1\<close> pieces, the empty string has the one piece \<open>""\<close>.
\<close>

fun strings_Split :: "string \<Rightarrow> string list" where
  "strings_Split [] = [[]]"
| "strings_Split (c # cs) =
     (if c = CHR ''/'' then [] # strings_Split cs
      else (case strings_Split cs of
              [] \<Rightarrow> [[c]]
            | p # ps \<Rightarrow> (c # p) # ps))"

text \<open>\<^verbatim>\<open>strings.HasPrefix(s, prefix)\<close>: \<^verbatim>\<open>len(s) >= len(prefix) && s[:len(prefix)] == prefix\<close>.\<close>

definition strings_HasPrefix :: "string \<Rightarrow> string \<Rightarrow> bool" where
  "strings_HasPrefix s pre = (length pre \<le> length s \<and> take (length pre) s = pre)"

section \<open>Router (route.go, Server.matchingRoute)\<close>

text \<open>
  \<^verbatim>\<open>type Route struct { Parts []string; Layout *Fragment; fragments []*Fragment }\<close>.
  The type of a fragment reference differs between the files (a \<^verbatim>\<open>*Fragment\<close> in
  route.go, a \<^verbatim>\<open>string\<close> in the serving code), so it is a type parameter.
\<close>

record 'f Route =
  Parts :: "string list"
  Layout :: 'f
  fragments :: "'f list"

definition newRoute :: "string \<Rightarrow> 'f \<Rightarrow> 'f list \<Rightarrow> 'f Route" where
  "newRoute path layout frags =
     \<lparr>Parts = strings_Split path, Layout = layout, fragments = frags\<rparr>"

text \<open>
  The loop of \<^verbatim>\<open>matchParts\<close>, \<^verbatim>\<open>for i := 0; i < len(r.Parts); i++\<close>, from index \<open>i\<close> on.
  It runs only after the length check, so \<^verbatim>\<open>pathParts[i]\<close> is in range.
\<close>

function matchParts_loop :: "string list \<Rightarrow> string list \<Rightarrow> nat \<Rightarrow> bool" where
  "matchParts_loop rparts pathParts i =
     (if i < length rparts then
        (if rparts ! i \<noteq> pathParts ! i \<and> \<not> strings_HasPrefix (rparts ! i) '':''
         then False
         else matchParts_loop rparts pathParts (Suc i))
      else True)"
  by pat_completeness auto
termination
  by (relation "measure (\<lambda>(rparts, pathParts, i). length rparts - i)") auto

definition matchParts :: "'f Route \<Rightarrow> string list \<Rightarrow> bool" where
  "matchParts r pathParts =
     (if length (Parts r) \<noteq> length pathParts then False
      else matchParts_loop (Parts r) pathParts 0)"

text \<open>
  The loop of \<^verbatim>\<open>parametersFor\<close>. It has no length check of its own: \<^verbatim>\<open>pathParts[i]\<close>
  panics when the path has fewer parts than the route. \<^verbatim>\<open>r.Parts[i][1:]\<close> is safe,
  since the part starts with a colon. \<^verbatim>\<open>parameters[paramName] = ...\<close> overwrites an
  earlier entry of the same name.
\<close>

function parametersFor_loop ::
  "string list \<Rightarrow> string list \<Rightarrow> nat \<Rightarrow> (string \<rightharpoonup> string) \<Rightarrow> panic + (string \<rightharpoonup> string)"
where
  "parametersFor_loop rparts pathParts i parameters =
     (if i < length rparts then
        (if strings_HasPrefix (rparts ! i) '':'' then
           (if i < length pathParts
            then parametersFor_loop rparts pathParts (Suc i)
                   (parameters(drop 1 (rparts ! i) \<mapsto> pathParts ! i))
            else Inl IndexOutOfRange)
         else parametersFor_loop rparts pathParts (Suc i) parameters)
      else Inr parameters)"
  by pat_completeness auto
termination
  by (relation "measure (\<lambda>(rparts, pathParts, i, parameters). length rparts - i)") auto

definition parametersFor :: "'f Route \<Rightarrow> string list \<Rightarrow> panic + (string \<rightharpoonup> string)" where
  "parametersFor r pathParts = parametersFor_loop (Parts r) pathParts 0 Map.empty"

text \<open>
  \<^verbatim>\<open>type Server struct\<close>, with the fields the modelled methods read. The logger and the
  \<^verbatim>\<open>http.Server\<close> handle are left out; \<^verbatim>\<open>ignoreHeaders\<close> is a
  \<^verbatim>\<open>map[string]struct{}\<close>, that is, a set of names.
\<close>

record 'f Server =
  Port :: int
  ProxyTimeout :: int
  routes :: "'f Route list"
  Target :: string
  DefaultPageTitle :: string
  ignoreHeaders :: "string set"

text \<open>
  \<^verbatim>\<open>Server.matchingRoute\<close>: the route table is scanned in registration order
  (\<^verbatim>\<open>Server.Get\<close> appends); the first route whose parts match is returned with its
  parameters, \<^verbatim>\<open>nil, nil\<close> (here \<open>None\<close>) when no route matches.
\<close>

fun matchingRoute_loop ::
  "'f Route list \<Rightarrow> string list \<Rightarrow> panic + ('f Route \<times> (string \<rightharpoonup> string)) option"
where
  "matchingRoute_loop [] parts = Inr None"
| "matchingRoute_loop (route # rest) parts =
     (if matchParts route parts then
        (case parametersFor route parts of
           Inl p \<Rightarrow> Inl p
         | Inr parameters \<Rightarrow> Inr (Some (route, parameters)))
      else matchingRoute_loop rest parts)"

definition matchingRoute ::
  "'f Server \<Rightarrow> string \<Rightarrow> panic + ('f Route \<times> (string \<rightharpoonup> string)) option"
where
  "matchingRoute s path = matchingRoute_loop (routes s) (strings_Split path)"

section \<open>HTTP headers, responses and results\<close>

text \<open>
  \<^verbatim>\<open>http.Header\<close> is a \<^verbatim>\<open>map[string][]string\<close>. \<^verbatim>\<open>Get\<close>, \<^verbatim>\<open>Set\<close> and
  \<^verbatim>\<open>Add\<close> first bring the key into canonical form; every key the modelled code passes
  (\<^verbatim>\<open>Content-Encoding\<close>, \<^verbatim>\<open>X-View-Proxy-Title\<close>, \<^verbatim>\<open>Authorization\<close>,
  \<^verbatim>\<open>X-Authorization-Time\<close>) is a literal already in that form, so the operations below
  look the key up as it is.
\<close>

type_synonym header = "string \<rightharpoonup> string list"

definition Header_Get :: "header \<Rightarrow> string \<Rightarrow> string" where
  "Header_Get h key = (case h key of None \<Rightarrow> [] | Some [] \<Rightarrow> [] | Some (v # vs) \<Rightarrow> v)"

definition Header_Set :: "header \<Rightarrow> string \<Rightarrow> string \<Rightarrow> header" where
  "Header_Set h key v = h(key \<mapsto> [v])"

text \<open>
  Errors that come out of the libraries and the context: an opaque library error
  (a transport failure, a reader failure), \<^verbatim>\<open>context.DeadlineExceeded\<close> and
  \<^verbatim>\<open>context.Canceled\<close>.
\<close>

datatype lib_error = LibError string | DeadlineExceeded | Canceled

text \<open>
  An \<^verbatim>\<open>io.Reader\<close> as \<^verbatim>\<open>ioutil.ReadAll\<close> sees it: the bytes it yields and the
  error, if any, that ends the reading (\<^verbatim>\<open>ReadAll\<close> returns both).
\<close>

record stream =
  Data :: string
  ReadErr :: "lib_error option"

definition ioutil_ReadAll :: "stream \<Rightarrow> string \<times> lib_error option" where
  "ioutil_ReadAll rd = (Data rd, ReadErr rd)"

record http_request =
  Req_Method :: string
  Req_Url :: string
  Req_Header :: header
  Req_Body :: "string option"

record http_response =
  Resp_StatusCode :: int
  Resp_Header :: header
  Resp_Body :: stream

text \<open>\<^verbatim>\<open>type Result struct\<close> of the multiplexer; \<^verbatim>\<open>Duration\<close> in nanoseconds.\<close>

record Result =
  Url :: string
  Duration :: int
  HttpResponse :: http_response
  Body :: string
  StatusCode :: int

text \<open>
  The \<^verbatim>\<open>error\<close> values the multiplexer returns: a library or context error, or a
  \<^verbatim>\<open>*ResultError\<close>, which holds the \<^verbatim>\<open>Result\<close> of a response with a non-2xx status.
\<close>

datatype error = Lib lib_error | ResultError Result

text \<open>
  A Go slice value is \<^verbatim>\<open>nil\<close> or refers to an array; \<^verbatim>\<open>make([]T, n)\<close> is never
  \<^verbatim>\<open>nil\<close>, also for \<^verbatim>\<open>n = 0\<close>.
\<close>

datatype 'a slice = NilSlice | Slice "'a list"

fun len :: "'a slice \<Rightarrow> nat" where
  "len NilSlice = 0"
| "len (Slice xs) = length xs"

section \<open>Response assembly (response_builder.go)\<close>

text \<open>
  \<^verbatim>\<open>bytes.Replace(s, old, new, 1)\<close>: a copy of \<open>s\<close> with the first instance of
  \<open>old\<close> replaced by \<open>new\<close>; \<open>s\<close> itself when \<open>old\<close> does not occur.
\<close>

fun bytes_Replace1 :: "string \<Rightarrow> string \<Rightarrow> string \<Rightarrow> string" where
  "bytes_Replace1 [] old new = (if old = [] then new else [])"
| "bytes_Replace1 (c # cs) old new =
     (if strings_HasPrefix (c # cs) old then new @ drop (length old) (c # cs)
      else c # bytes_Replace1 cs old new)"

definition VIEW_PROXY_CONTENT :: string where
  "VIEW_PROXY_CONTENT = ''{{{VIEW_PROXY_CONTENT}}}''"

definition VIEW_PROXY_PAGE_TITLE :: string where
  "VIEW_PROXY_PAGE_TITLE = ''{{{VIEW_PROXY_PAGE_TITLE}}}''"

text \<open>
  \<^verbatim>\<open>type responseBuilder struct\<close>: the server it reads the default title from, the body
  and the status code; the \<^verbatim>\<open>http.ResponseWriter\<close> is not part of the body composition.
\<close>

record 'f responseBuilder =
  rb_server :: "'f Server"
  rb_body :: string
  rb_StatusCode :: int

definition newResponseBuilder :: "'f Server \<Rightarrow> 'f responseBuilder" where
  "newResponseBuilder server = \<lparr>rb_server = server, rb_body = [], rb_StatusCode = 200\<rparr>"

definition SetLayout :: "'f responseBuilder \<Rightarrow> Result \<Rightarrow> 'f responseBuilder" where
  "SetLayout rb result = rb\<lparr>rb_body := Body result\<rparr>"

text \<open>
  The loop of \<^verbatim>\<open>SetFragments\<close> over the results, with the two variables it updates:
  \<^verbatim>\<open>contentHtml\<close> and \<^verbatim>\<open>pageTitle\<close>.
\<close>

fun SetFragments_loop :: "Result list \<Rightarrow> string \<Rightarrow> string \<Rightarrow> string \<times> string" where
  "SetFragments_loop [] contentHtml pageTitle = (contentHtml, pageTitle)"
| "SetFragments_loop (result # results) contentHtml pageTitle =
     SetFragments_loop results (contentHtml @ Body result)
       (if Header_Get (Resp_Header (HttpResponse result)) ''X-View-Proxy-Title'' \<noteq> []
        then Header_Get (Resp_Header (HttpResponse result)) ''X-View-Proxy-Title''
        else pageTitle)"

text \<open>The title \<^verbatim>\<open>SetFragments\<close> substitutes: the loop's, or the server's default.\<close>

definition SetFragments_pageTitle :: "'f responseBuilder \<Rightarrow> Result list \<Rightarrow> string" where
  "SetFragments_pageTitle rb results =
     (let pageTitle = snd (SetFragments_loop results [] [])
      in if pageTitle = [] then DefaultPageTitle (rb_server rb) else pageTitle)"

definition SetFragments :: "'f responseBuilder \<Rightarrow> Result list \<Rightarrow> 'f responseBuilder" where
  "SetFragments rb results =
     (let contentHtml = fst (SetFragments_loop results [] []);
          pageTitle = SetFragments_pageTitle rb results
      in if length (rb_body rb) = 0 then rb\<lparr>rb_body := contentHtml\<rparr>
         else
           (let outputHtml = bytes_Replace1 (rb_body rb) VIEW_PROXY_CONTENT contentHtml;
                outputHtml = bytes_Replace1 outputHtml VIEW_PROXY_PAGE_TITLE pageTitle
            in rb\<lparr>rb_body := outputHtml\<rparr>))"

section \<open>Library functions the code calls\<close>

text \<open>
  \<^verbatim>\<open>url.URL\<close>, with the fields the code reads and writes: \<^verbatim>\<open>Path\<close> is the decoded
  path, \<^verbatim>\<open>RawQuery\<close> the query without the question mark.
\<close>

record URL =
  Scheme :: string
  Host :: string
  Path :: string
  RawQuery :: string

text \<open>
  The functions of Go's standard library that the code calls and that are not part of
  this repository are parameters of the model:
  \<^item> \<^verbatim>\<open>url.Parse\<close>, \<open>None\<close> when it returns an error (and a nil URL);
  \<^item> \<^verbatim>\<open>url.Values.Encode\<close>, applied to the values that hold each parameter once;
  \<^item> \<^verbatim>\<open>URL.String\<close>;
  \<^item> \<^verbatim>\<open>gzip.NewReader\<close> on a body: an error when the gzip header is bad, otherwise
    the reader of the decompressed bytes, which can still fail while it is read;
  \<^item> HMAC-SHA256, \<^verbatim>\<open>hmac.New(sha256.New, key)\<close>, \<^verbatim>\<open>Write(message)\<close>,
    \<^verbatim>\<open>Sum(nil)\<close>: from key and message to the 32 bytes of the digest.
\<close>

record library =
  url_Parse :: "string \<Rightarrow> URL option"
  Values_Encode :: "(string \<rightharpoonup> string) \<Rightarrow> string"
  URL_String :: "URL \<Rightarrow> string"
  gzip_NewReader :: "stream \<Rightarrow> lib_error + stream"
  hmac_sha256 :: "string \<Rightarrow> string \<Rightarrow> string"

text \<open>\<^verbatim>\<open>hex.EncodeToString\<close>: two lower-case hexadecimal digits for each byte.\<close>

definition hexdigit :: "nat \<Rightarrow> char" where
  "hexdigit n = ''0123456789abcdef'' ! n"

definition hex_EncodeToString :: "string \<Rightarrow> string" where
  "hex_EncodeToString bs =
     concat (map (\<lambda>c. [hexdigit ((of_char c :: nat) div 16), hexdigit ((of_char c :: nat) mod 16)]) bs)"

text \<open>\<^verbatim>\<open>fmt.Sprintf("%d", n)\<close> for an \<^verbatim>\<open>int64\<close>: the decimal digits, with a sign when negative.\<close>

function decimal :: "nat \<Rightarrow> string" where
  "decimal n = (if n < 10 then [hexdigit n] else decimal (n div 10) @ [hexdigit (n mod 10)])"
  by pat_completeness auto
termination
  by (relation "measure (\<lambda>n. n)") auto

definition Sprintf_d :: "int \<Rightarrow> string" where
  "Sprintf_d n = (if n < 0 then CHR ''-'' # decimal (nat (- n)) else decimal (nat n))"

text \<open>\<^verbatim>\<open>strings.ToLower\<close> on ASCII text, which header names are.\<close>

definition strings_ToLower :: "string \<Rightarrow> string" where
  "strings_ToLower s =
     map (\<lambda>c. if 65 \<le> (of_char c :: nat) \<and> (of_char c :: nat) \<le> 90
               then char_of ((of_char c :: nat) + 32) else c) s"

section \<open>Serving (Server.ServeHTTP in response_builder.go)\<close>

text \<open>
  \<^verbatim>\<open>constructLayoutUrl\<close> and \<^verbatim>\<open>constructFragmentUrl\<close>: both panic when the target
  does not parse. The parameters go into the query, each name once.
\<close>

definition constructLayoutUrl ::
  "library \<Rightarrow> string Server \<Rightarrow> string \<Rightarrow> (string \<rightharpoonup> string) \<Rightarrow> panic + string"
where
  "constructLayoutUrl lib s layout parameters =
     (case url_Parse lib (Target s) of
        None \<Rightarrow> Inl PanicErr
      | Some targetUrl \<Rightarrow>
          Inr (URL_String lib
                 (targetUrl\<lparr>Path := Path targetUrl @ ''/layouts/'' @ layout,
                             RawQuery := Values_Encode lib parameters\<rparr>)))"

definition constructFragmentUrl ::
  "library \<Rightarrow> string Server \<Rightarrow> string \<Rightarrow> (string \<rightharpoonup> string) \<Rightarrow> panic + string"
where
  "constructFragmentUrl lib s frag parameters =
     (case url_Parse lib (Target s @ ''/'' @ frag) of
        None \<Rightarrow> Inl PanicErr
      | Some targetUrl \<Rightarrow>
          Inr (URL_String lib (targetUrl\<lparr>RawQuery := Values_Encode lib parameters\<rparr>)))"

text \<open>The loop \<^verbatim>\<open>for _, fragment := range route.fragments\<close> that appends to \<^verbatim>\<open>urls\<close>.\<close>

fun constructFragmentUrls ::
  "library \<Rightarrow> string Server \<Rightarrow> string list \<Rightarrow> (string \<rightharpoonup> string) \<Rightarrow> panic + string list"
where
  "constructFragmentUrls lib s [] parameters = Inr []"
| "constructFragmentUrls lib s (frag # frags) parameters =
     (case constructFragmentUrl lib s frag parameters of
        Inl p \<Rightarrow> Inl p
      | Inr u \<Rightarrow>
          (case constructFragmentUrls lib s frags parameters of
             Inl p \<Rightarrow> Inl p
           | Inr us \<Rightarrow> Inr (u # us)))"

text \<open>What the handler hands to the logger, one entry for each \<^verbatim>\<open>Printf\<close>.\<close>

datatype log_entry =
    Handling string
  | Errored error
  | Fetched string int
  | Rendering404 string

record response_writer =
  W_Header :: header
  W_Body :: string

text \<open>
  The loop over \<^verbatim>\<open>results[0].HttpResponse.Header\<close>: every value of a header whose
  lower-cased name is not ignored is added to the response.
\<close>

definition ServeHTTP_headers :: "string set \<Rightarrow> header \<Rightarrow> header" where
  "ServeHTTP_headers ignored h =
     (\<lambda>name. case h name of
                None \<Rightarrow> None
              | Some vs \<Rightarrow> if strings_ToLower name \<in> ignored \<or> vs = [] then None else Some vs)"

text \<open>
  The loop \<^verbatim>\<open>for _, result := range results[1:]\<close> with the variables it updates:
  \<^verbatim>\<open>contentHtml\<close>, \<^verbatim>\<open>pageTitle\<close> and the log.
\<close>

fun ServeHTTP_loop ::
  "Result list \<Rightarrow> string \<Rightarrow> string \<Rightarrow> log_entry list \<Rightarrow> string \<times> string \<times> log_entry list"
where
  "ServeHTTP_loop [] contentHtml pageTitle lg = (contentHtml, pageTitle, lg)"
| "ServeHTTP_loop (result # results) contentHtml pageTitle lg =
     ServeHTTP_loop results (contentHtml @ Body result)
       (if Header_Get (Resp_Header (HttpResponse result)) ''X-View-Proxy-Title'' \<noteq> []
        then Header_Get (Resp_Header (HttpResponse result)) ''X-View-Proxy-Title''
        else pageTitle)
       (lg @ [Fetched (Url result) (Duration result)])"

text \<open>
  The handler after \<^verbatim>\<open>multiplexer.Fetch\<close> has returned \<^verbatim>\<open>results, err\<close>. The error
  is logged and nothing else is done about it; \<^verbatim>\<open>results[0]\<close> is read next, which
  panics when the slice has no element.
\<close>

definition ServeHTTP_fetched ::
  "string Server \<Rightarrow> log_entry list \<Rightarrow> Result slice \<times> error option
     \<Rightarrow> log_entry list \<times> (panic + response_writer)"
where
  "ServeHTTP_fetched s lg0 fetched =
     (let results = fst fetched;
          lg1 = (case snd fetched of None \<Rightarrow> lg0 | Some err \<Rightarrow> lg0 @ [Errored err])
      in case results of
           NilSlice \<Rightarrow> (lg1, Inl IndexOutOfRange)
         | Slice [] \<Rightarrow> (lg1, Inl IndexOutOfRange)
         | Slice (r0 # rest) \<Rightarrow>
             (let layoutHtml = Body r0;
                  lg2 = lg1 @ [Fetched (Url r0) (Duration r0)];
                  hdr = ServeHTTP_headers (ignoreHeaders s) (Resp_Header (HttpResponse r0));
                  looped = ServeHTTP_loop rest [] (DefaultPageTitle s) lg2;
                  contentHtml = fst looped;
                  pageTitle = fst (snd looped);
                  outputHtml = bytes_Replace1 layoutHtml VIEW_PROXY_CONTENT contentHtml;
                  outputHtml = bytes_Replace1 outputHtml VIEW_PROXY_PAGE_TITLE pageTitle
              in (snd (snd looped), Inr \<lparr>W_Header = hdr, W_Body = outputHtml\<rparr>)))"

text \<open>
  \<^verbatim>\<open>Server.ServeHTTP\<close>. \<^verbatim>\<open>multiplexer.Fetch\<close> is called with the URLs (the layout's
  first) and the proxy timeout; its code is not in the source files at hand, so what it
  returns for a call is the parameter \<open>Fetch\<close>. The result is the log written and either
  the panic that ended the handler or the response written.
\<close>

definition ServeHTTP ::
  "library \<Rightarrow> (string list \<Rightarrow> int \<Rightarrow> Result slice \<times> error option) \<Rightarrow> string Server \<Rightarrow> string
     \<Rightarrow> log_entry list \<times> (panic + response_writer)"
where
  "ServeHTTP lib Fetch s path =
     (case matchingRoute s path of
        Inl p \<Rightarrow> ([], Inl p)
      | Inr None \<Rightarrow>
          ([Rendering404 path], Inr \<lparr>W_Header = Map.empty, W_Body = ''404 not found''\<rparr>)
      | Inr (Some (route, parameters)) \<Rightarrow>
          (case constructLayoutUrl lib s (Layout route) parameters of
             Inl p \<Rightarrow> ([Handling path], Inl p)
           | Inr layoutUrl \<Rightarrow>
               (case constructFragmentUrls lib s (fragments route) parameters of
                  Inl p \<Rightarrow> ([Handling path], Inl p)
                | Inr fragmentUrls \<Rightarrow>
                    ServeHTTP_fetched s [Handling path]
                      (Fetch (layoutUrl # fragmentUrls) (ProxyTimeout s)))))"

section \<open>Body composition as the specification words it\<close>

text \<open>
  \<open>t\<close> is \<open>s\<close> with the first occurrence of \<open>old\<close> replaced by \<open>new\<close>, or \<open>s\<close>
  itself when \<open>old\<close> does not occur in \<open>s\<close>.
\<close>

definition replaced_first :: "string \<Rightarrow> string \<Rightarrow> string \<Rightarrow> string \<Rightarrow> bool" where
  "replaced_first s old new t \<longleftrightarrow>
     (\<exists>pre post. s = pre @ old @ post \<and>
        (\<forall>pre' post'. s = pre' @ old @ post' \<longrightarrow> length pre \<le> length pre') \<and>
        t = pre @ new @ post) \<or>
     ((\<forall>pre post. s \<noteq> pre @ old @ post) \<and> t = s)"

text \<open>The split of \<open>s\<close> around the first occurrence of \<open>old\<close>, if there is one.\<close>

fun split_first :: "string \<Rightarrow> string \<Rightarrow> (string \<times> string) option" where
  "split_first [] old = (if old = [] then Some ([], []) else None)"
| "split_first (c # cs) old =
     (if strings_HasPrefix (c # cs) old then Some ([], drop (length old) (c # cs))
      else (case split_first cs old of
              None \<Rightarrow> None
            | Some (pre, post) \<Rightarrow> Some (c # pre, post)))"

text \<open>
  The specification's body composition: in the layout body, the content token and the
  title token are each replaced once, the content token by the concatenated fragment
  bodies and the title token by the title. Both replacements are made in the layout (an
  occurrence of one token cannot overlap an occurrence of the other), so the title goes to
  the first title token of the layout, before or after the content token.
\<close>

definition spec_layout_composed :: "string \<Rightarrow> string \<Rightarrow> string \<Rightarrow> string" where
  "spec_layout_composed layout content title =
     (case split_first layout VIEW_PROXY_CONTENT of
        None \<Rightarrow> bytes_Replace1 layout VIEW_PROXY_PAGE_TITLE title
      | Some (pre, post) \<Rightarrow>
          (case split_first pre VIEW_PROXY_PAGE_TITLE of
             Some (p1, p2) \<Rightarrow> p1 @ title @ p2 @ content @ post
           | None \<Rightarrow> pre @ content @ bytes_Replace1 post VIEW_PROXY_PAGE_TITLE title))"

section \<open>Multiplexer (package multiplexer in pkg/server/server.go)\<close>

record fragment =
  url :: string
  metadata :: "string \<rightharpoonup> string"

text \<open>
  \<^verbatim>\<open>type Request struct\<close>. The field \<^verbatim>\<open>ctx\<close> is never read and is left out; the
  field \<^verbatim>\<open>fragments\<close> is \<open>req_fragments\<close> here, the name being taken by the route's.
  \<^verbatim>\<open>Timeout\<close> is in nanoseconds.

  \<^verbatim>\<open>Transport\<close> is an \<^verbatim>\<open>http.RoundTripper\<close>: an object that answers a request out
  of the state of the network and of the upstream service, so that two equal requests can
  get different answers. In the model it is a function of the request and of the position,
  in input order, of the fragment the call is made for. Its answer stands for what
  \<^verbatim>\<open>http.NewRequestWithContext\<close> followed by \<^verbatim>\<open>client.Do\<close> gives: an error, or the
  response together with the time \<^verbatim>\<open>time.Since(start)\<close> reads after it. Redirects are
  not followed (\<^verbatim>\<open>CheckRedirect\<close> returns \<^verbatim>\<open>http.ErrUseLastResponse\<close>), so the
  response is the first hop's. The effect of the context on a fetch (a cancelled fetch
  fails) is part of the transport's answer.
\<close>

record Request =
  Header :: header
  layoutURL :: string
  req_fragments :: "fragment list"
  Timeout :: int
  HmacSecret :: string
  Non2xxErrors :: bool
  Transport :: "nat \<Rightarrow> http_request \<Rightarrow> lib_error + http_response \<times> int"

definition NewRequest ::
  "(nat \<Rightarrow> http_request \<Rightarrow> lib_error + http_response \<times> int) \<Rightarrow> Request"
where
  "NewRequest defaultTransport =
     \<lparr>Header = Map.empty, layoutURL = [], req_fragments = [],
      Timeout = 10 * 1000000000, HmacSecret = [], Non2xxErrors = True,
      Transport = defaultTransport\<rparr>"


text \<open>
  The end of \<^verbatim>\<open>fetchUrl\<close>, from \<^verbatim>\<open>if err != nil\<close> after the body has been read:
  \<open>err\<close> is the value of the function's variable \<^verbatim>\<open>err\<close> at that point.
\<close>

definition fetchUrl_result ::
  "Request \<Rightarrow> string \<Rightarrow> http_response \<Rightarrow> int \<Rightarrow> string \<Rightarrow> lib_error option \<Rightarrow> error + Result"
where
  "fetchUrl_result r u resp duration responseBody err =
     (case err of
        Some e \<Rightarrow> Inl (Lib e)
      | None \<Rightarrow>
          (let result = \<lparr>Url = u, Duration = duration, HttpResponse = resp,
                         Body = responseBody, StatusCode = Resp_StatusCode resp\<rparr>
           in if Non2xxErrors r \<and> (Resp_StatusCode resp < 200 \<or> Resp_StatusCode resp > 299)
              then Inl (ResultError result)
              else Inr result))"

text \<open>
  \<^verbatim>\<open>Request.fetchUrl\<close>; \<open>roundTrip\<close> is the transport's answer function for this call.

  In the gzip branch, \<^verbatim>\<open>gzipReader, err := gzip.NewReader(resp.Body)\<close> declares a new
  \<^verbatim>\<open>err\<close> inside the block, and \<^verbatim>\<open>responseBody, err = ioutil.ReadAll(gzipReader)\<close>
  assigns to that inner variable. The \<^verbatim>\<open>err\<close> tested after the block is the function's
  own, which still holds the \<^verbatim>\<open>nil\<close> of \<^verbatim>\<open>client.Do\<close>: the error of reading the
  gzip stream is dropped, and the bytes read before it are the body. In the other branch
  the assignment is to the function's variable.
\<close>

definition fetchUrl ::
  "library \<Rightarrow> Request \<Rightarrow> (http_request \<Rightarrow> lib_error + http_response \<times> int)
     \<Rightarrow> string \<Rightarrow> string \<Rightarrow> header \<Rightarrow> string option \<Rightarrow> error + Result"
where
  "fetchUrl lib r roundTrip method u headers body =
     (case roundTrip \<lparr>Req_Method = method, Req_Url = u, Req_Header = headers, Req_Body = body\<rparr> of
        Inl err \<Rightarrow> Inl (Lib err)
      | Inr (resp, duration) \<Rightarrow>
          (if Header_Get (Resp_Header resp) ''Content-Encoding'' = ''gzip'' then
             (case gzip_NewReader lib (Resp_Body resp) of
                Inl err \<Rightarrow> Inl (Lib err)
              | Inr gzipReader \<Rightarrow>
                  fetchUrl_result r u resp duration (fst (ioutil_ReadAll gzipReader)) None)
           else
             fetchUrl_result r u resp duration
               (fst (ioutil_ReadAll (Resp_Body resp))) (snd (ioutil_ReadAll (Resp_Body resp)))))"

definition DoSingle :: "library \<Rightarrow> Request \<Rightarrow> string \<Rightarrow> string \<Rightarrow> string option \<Rightarrow> error + Result" where
  "DoSingle lib r method u body = fetchUrl lib r (Transport r 0) method u (Header r) body"

text \<open>
  \<^verbatim>\<open>pathFromFullUrl\<close>. The error of \<^verbatim>\<open>url.Parse\<close> is discarded; on an error the URL
  is nil and reading its field panics.
\<close>

definition pathFromFullUrl :: "library \<Rightarrow> string \<Rightarrow> panic + string" where
  "pathFromFullUrl lib fullUrl =
     (case url_Parse lib fullUrl of
        None \<Rightarrow> Inl NilDereference
      | Some targetUrl \<Rightarrow>
          Inr (if RawQuery targetUrl \<noteq> [] then Path targetUrl @ ''?'' @ RawQuery targetUrl
               else Path targetUrl))"

text \<open>
  \<^verbatim>\<open>Request.headersWithHmac\<close>; \<open>now\<close> is what \<^verbatim>\<open>time.Now().Unix()\<close> reads. The new
  headers are a copy of the request's, with the two headers set.
\<close>

definition headersWithHmac :: "library \<Rightarrow> int \<Rightarrow> Request \<Rightarrow> string \<Rightarrow> panic + header" where
  "headersWithHmac lib now r u =
     (let newHeaders = Header r;
          timestamp = Sprintf_d now
      in case pathFromFullUrl lib u of
           Inl p \<Rightarrow> Inl p
         | Inr path \<Rightarrow>
             (let mac = hmac_sha256 lib (HmacSecret r) (path @ '','' @ timestamp);
                  newHeaders = Header_Set newHeaders ''Authorization'' (hex_EncodeToString mac);
                  newHeaders = Header_Set newHeaders ''X-Authorization-Time'' timestamp
              in Inr newHeaders))"



text \<open>
  \<^verbatim>\<open>sort.SliceStable(x, less)\<close>: the elements in the order of \<open>less\<close> (here
  \<open>lt\<close>), elements that it does not order staying in their original order. Insertion from the right
  computes that order: an element goes in front of the first element that is not less
  than it.
\<close>

fun insert_stable :: "('a \<Rightarrow> 'a \<Rightarrow> bool) \<Rightarrow> 'a \<Rightarrow> 'a list \<Rightarrow> 'a list" where
  "insert_stable lt x [] = [x]"
| "insert_stable lt x (y # ys) =
     (if lt y x then y # insert_stable lt x ys else x # y # ys)"

definition sort_SliceStable :: "('a \<Rightarrow> 'a \<Rightarrow> bool) \<Rightarrow> 'a list \<Rightarrow> 'a list" where
  "sort_SliceStable lt xs = foldr (insert_stable lt) xs []"

subsection \<open>Request.Do: goroutines, channels and the select\<close>

text \<open>
  What the goroutine started for the fragment at position \<open>i\<close> computes before it sends:
  the headers (signed when a secret is set; \<open>now i\<close> is the clock this goroutine reads)
  and the fetch. A panic in a goroutine ends the program.
\<close>

definition fetch_fragment ::
  "library \<Rightarrow> (nat \<Rightarrow> int) \<Rightarrow> Request \<Rightarrow> nat \<Rightarrow> panic + (error + Result)"
where
  "fetch_fragment lib now r i =
     (let f = req_fragments r ! i
      in case (if HmacSecret r \<noteq> [] then headersWithHmac lib (now i) r (url f)
               else Inr (Header r)) of
           Inl p \<Rightarrow> Inl p
         | Inr headersForRequest \<Rightarrow>
             Inr (fetchUrl lib r (Transport r i) ''GET'' (url f) headersForRequest None))"











text \<open>The result goroutine \<open>i\<close> sends, when its fetch succeeds.\<close>

definition fetched :: "library \<Rightarrow> (nat \<Rightarrow> int) \<Rightarrow> Request \<Rightarrow> nat \<Rightarrow> Result option" where
  "fetched lib now r i =
     (case fetch_fragment lib now r i of
        Inl p \<Rightarrow> None
      | Inr (Inl err) \<Rightarrow> None
      | Inr (Inr result) \<Rightarrow> Some result)"


section \<open>Values for the examples\<close>

text \<open>A result with status 200, the given URL, body and response headers.\<close>

definition frag_result :: "string \<Rightarrow> string \<Rightarrow> header \<Rightarrow> Result" where
  "frag_result u b h =
     \<lparr>Url = u, Duration = 0,
      HttpResponse = \<lparr>Resp_StatusCode = 200, Resp_Header = h,
                       Resp_Body = \<lparr>Data = b, ReadErr = None\<rparr>\<rparr>,
      Body = b, StatusCode = 200\<rparr>"

text \<open>A server with the one route \<open>/\<close>, the layout \<open>main\<close> and the fragment \<open>body\<close>.\<close>

definition home_server :: "string Server" where
  "home_server = \<lparr>Port = 8080, ProxyTimeout = 10, routes = [newRoute ''/'' ''main'' [''body'']],
      Target = ''http://upstream'', DefaultPageTitle = ''Home'', ignoreHeaders = {''content-length''}\<rparr>"

text \<open>
  Library functions for the examples: \<^verbatim>\<open>url.Parse\<close> and \<^verbatim>\<open>URL.String\<close> as they
  behave on \<open>http://upstream\<close> and the URLs \<open>http://upstream/...\<close> without query or
  escapes; an empty encoded query (there are no parameters); a gzip reader that rejects
  every header; a digest that is not looked at.
\<close>

definition example_lib :: library where
  "example_lib =
     \<lparr>url_Parse = (\<lambda>u. if take 16 u = ''http://upstream/''
                         then Some \<lparr>Scheme = ''http'', Host = ''upstream'', Path = drop 15 u, RawQuery = []\<rparr>
                         else if u = ''http://upstream''
                         then Some \<lparr>Scheme = ''http'', Host = ''upstream'', Path = [], RawQuery = []\<rparr>
                         else None),
      Values_Encode = (\<lambda>m. []),
      URL_String = (\<lambda>u. Scheme u @ ''://'' @ Host u @ Path u @
                           (if RawQuery u = [] then [] else CHR ''?'' # RawQuery u)),
      gzip_NewReader = (\<lambda>s. Inl (LibError ''gzip: invalid header'')),
      hmac_sha256 = (\<lambda>k m. [])\<rparr>"

text \<open>
  A transport that answers the fetch at position \<open>i\<close> with the status and body at
  position \<open>i\<close> of a list, after 5 nanoseconds and without headers, and refuses other
  calls.
\<close>

definition list_transport ::
  "(int \<times> string) list \<Rightarrow> nat \<Rightarrow> http_request \<Rightarrow> lib_error + http_response \<times> int"
where
  "list_transport answers i req =
     (if i < length answers
      then Inr (\<lparr>Resp_StatusCode = fst (answers ! i), Resp_Header = Map.empty,
                 Resp_Body = \<lparr>Data = snd (answers ! i), ReadErr = None\<rparr>\<rparr>, 5)
      else Inl (LibError ''connection refused''))"



text \<open>
  A response that declares gzip and whose body is the ten bytes of a gzip header and
  nothing more, and library functions with \<^verbatim>\<open>gzip.NewReader\<close> as it behaves on that
  body: the header is accepted, and reading the stream fails with
  \<^verbatim>\<open>io.ErrUnexpectedEOF\<close> before any byte.
\<close>

definition gzip_header :: string where
  "gzip_header = [char_of (0x1f::nat), char_of (0x8b::nat), char_of (8::nat), char_of (0::nat),
     char_of (0::nat), char_of (0::nat), char_of (0::nat), char_of (0::nat), char_of (0::nat),
     char_of (0xff::nat)]"

definition truncated_gzip_lib :: library where
  "truncated_gzip_lib = example_lib
     \<lparr>gzip_NewReader := (\<lambda>s. if Data s = gzip_header
          then Inr \<lparr>Data = [], ReadErr = Some (LibError ''unexpected EOF'')\<rparr>
          else Inl (LibError ''gzip: invalid header''))\<rparr>"

definition truncated_gzip_response :: http_response where
  "truncated_gzip_response =
     \<lparr>Resp_StatusCode = 200, Resp_Header = [''Content-Encoding'' \<mapsto> [''gzip'']],
      Resp_Body = \<lparr>Data = gzip_header, ReadErr = None\<rparr>\<rparr>"

text \<open>
  The HMAC-SHA256 digests, for the key \<open>S\<close>, of the messages \<open>/frag,1700000000\<close>,
  \<open>/frag?,1700000000\<close> and \<open>/frag?x=1,1700000000\<close>, as a reference implementation
  computes them.
\<close>

definition digest_frag :: string where
  "digest_frag = [
     char_of (0x2c::nat), char_of (0xdd::nat), char_of (0x44::nat), char_of (0x06::nat),
     char_of (0x8e::nat), char_of (0x53::nat), char_of (0x3a::nat), char_of (0x84::nat),
     char_of (0x88::nat), char_of (0xf2::nat), char_of (0x9a::nat), char_of (0x8c::nat),
     char_of (0x87::nat), char_of (0x4b::nat), char_of (0x25::nat), char_of (0x97::nat),
     char_of (0x5e::nat), char_of (0xe2::nat), char_of (0x9e::nat), char_of (0xbe::nat),
     char_of (0xdc::nat), char_of (0xe2::nat), char_of (0x0f::nat), char_of (0x4c::nat),
     char_of (0xd2::nat), char_of (0x14::nat), char_of (0x8e::nat), char_of (0xbd::nat),
     char_of (0x58::nat), char_of (0x47::nat), char_of (0x9e::nat), char_of (0xa3::nat)]"

definition digest_frag_question :: string where
  "digest_frag_question = [
     char_of (0xfc::nat), char_of (0xa7::nat), char_of (0x86::nat), char_of (0x42::nat),
     char_of (0x82::nat), char_of (0xf4::nat), char_of (0x52::nat), char_of (0x92::nat),
     char_of (0x4a::nat), char_of (0x15::nat), char_of (0x9f::nat), char_of (0x92::nat),
     char_of (0x1b::nat), char_of (0x95::nat), char_of (0xb8::nat), char_of (0xb0::nat),
     char_of (0x03::nat), char_of (0x4e::nat), char_of (0x2f::nat), char_of (0x03::nat),
     char_of (0x3a::nat), char_of (0xdc::nat), char_of (0x21::nat), char_of (0x5e::nat),
     char_of (0x53::nat), char_of (0x7a::nat), char_of (0xc0::nat), char_of (0xfd::nat),
     char_of (0x7f::nat), char_of (0x38::nat), char_of (0xea::nat), char_of (0x08::nat)]"

definition digest_frag_query :: string where
  "digest_frag_query = [
     char_of (0xd8::nat), char_of (0xa9::nat), char_of (0xf8::nat), char_of (0x6e::nat),
     char_of (0x05::nat), char_of (0xec::nat), char_of (0x0c::nat), char_of (0x49::nat),
     char_of (0x22::nat), char_of (0xc4::nat), char_of (0xa6::nat), char_of (0x80::nat),
     char_of (0xb2::nat), char_of (0x87::nat), char_of (0x9f::nat), char_of (0xfb::nat),
     char_of (0x79::nat), char_of (0xc1::nat), char_of (0xca::nat), char_of (0xdf::nat),
     char_of (0x7a::nat), char_of (0xfb::nat), char_of (0x61::nat), char_of (0xac::nat),
     char_of (0xb2::nat), char_of (0xac::nat), char_of (0x55::nat), char_of (0x06::nat),
     char_of (0xb9::nat), char_of (0xe9::nat), char_of (0x48::nat), char_of (0x39::nat)]"

text \<open>
  Library functions for the examples of the signature: \<^verbatim>\<open>url.Parse\<close> as it behaves on
  the two URLs used, and HMAC-SHA256 as it behaves for the key \<open>S\<close> on the three messages.
\<close>

definition hmac_example_lib :: library where
  "hmac_example_lib = example_lib
     \<lparr>url_Parse := (\<lambda>u.
          if u = ''http://upstream/frag''
          then Some \<lparr>Scheme = ''http'', Host = ''upstream'', Path = ''/frag'', RawQuery = []\<rparr>
          else if u = ''http://upstream/frag?x=1''
          then Some \<lparr>Scheme = ''http'', Host = ''upstream'', Path = ''/frag'', RawQuery = ''x=1''\<rparr>
          else None),
      hmac_sha256 := (\<lambda>k m.
          if k = ''S'' \<and> m = ''/frag,1700000000'' then digest_frag
          else if k = ''S'' \<and> m = ''/frag?,1700000000'' then digest_frag_question
          else if k = ''S'' \<and> m = ''/frag?x=1,1700000000'' then digest_frag_query
          else [])\<rparr>"

text \<open>The request of \<^verbatim>\<open>NewRequest\<close> with the secret \<open>S\<close>.\<close>

definition signed_request :: Request where
  "signed_request = (NewRequest (list_transport []))\<lparr>HmacSecret := ''S''\<rparr>"


section \<open>Properties of the router\<close>

declare matchParts_loop.simps [simp del]
declare parametersFor_loop.simps [simp del]


lemma matchParts_loop_iff:
  "matchParts_loop rparts pp i \<longleftrightarrow>
     (\<forall>j. i \<le> j \<and> j < length rparts \<longrightarrow>
        rparts ! j = pp ! j \<or> strings_HasPrefix (rparts ! j) '':'')"
proof (induction rparts pp i rule: matchParts_loop.induct)
  case (1 rparts pp i)
  show ?case
  proof (cases "i < length rparts")
    case False
    then show ?thesis by (subst matchParts_loop.simps) auto
  next
    case True
    note lt = this
    show ?thesis
    proof (cases "rparts ! i \<noteq> pp ! i \<and> \<not> strings_HasPrefix (rparts ! i) '':''")
      case True
      with lt show ?thesis
        by (subst matchParts_loop.simps) auto
    next
      case False
      have "matchParts_loop rparts pp i = matchParts_loop rparts pp (Suc i)"
        using lt False by (subst matchParts_loop.simps) auto
      also have "\<dots> \<longleftrightarrow> (\<forall>j. Suc i \<le> j \<and> j < length rparts \<longrightarrow>
        rparts ! j = pp ! j \<or> strings_HasPrefix (rparts ! j) '':'')"
        using 1 lt False by blast
      also have "\<dots> \<longleftrightarrow> (\<forall>j. i \<le> j \<and> j < length rparts \<longrightarrow>
        rparts ! j = pp ! j \<or> strings_HasPrefix (rparts ! j) '':'')"
        using False by (metis Suc_leD Suc_leI le_neq_implies_less)
      finally show ?thesis .
    qed
  qed
qed

lemma parametersFor_loop_ok:
  "length rparts \<le> length pp \<Longrightarrow>
   \<exists>ps. parametersFor_loop rparts pp i params = Inr ps \<and>
     (\<forall>name. (\<forall>j. i \<le> j \<and> j < length rparts \<and> strings_HasPrefix (rparts ! j) '':''
                  \<longrightarrow> drop 1 (rparts ! j) \<noteq> name) \<longrightarrow> ps name = params name) \<and>
     (\<forall>j. i \<le> j \<and> j < length rparts \<and> strings_HasPrefix (rparts ! j) '':'' \<and>
          (\<forall>k. j < k \<and> k < length rparts \<and> strings_HasPrefix (rparts ! k) '':''
                \<longrightarrow> drop 1 (rparts ! k) \<noteq> drop 1 (rparts ! j))
          \<longrightarrow> ps (drop 1 (rparts ! j)) = Some (pp ! j))"
proof (induction rparts pp i params rule: parametersFor_loop.induct)
  case (1 rparts pp i params)
  show ?case
  proof (cases "i < length rparts")
    case False
    then show ?thesis by (subst parametersFor_loop.simps) auto
  next
    case True
    note lt = this
    show ?thesis
    proof (cases "strings_HasPrefix (rparts ! i) '':''")
      case False
      have eq: "parametersFor_loop rparts pp i params = parametersFor_loop rparts pp (Suc i) params"
        using lt False by (subst parametersFor_loop.simps) auto
      from 1(2) [OF lt False "1.prems"] obtain ps where
        ps: "parametersFor_loop rparts pp (Suc i) params = Inr ps"
        and a: "\<forall>name. (\<forall>j. Suc i \<le> j \<and> j < length rparts \<and> strings_HasPrefix (rparts ! j) '':''
                  \<longrightarrow> drop 1 (rparts ! j) \<noteq> name) \<longrightarrow> ps name = params name"
        and b: "\<forall>j. Suc i \<le> j \<and> j < length rparts \<and> strings_HasPrefix (rparts ! j) '':'' \<and>
          (\<forall>k. j < k \<and> k < length rparts \<and> strings_HasPrefix (rparts ! k) '':''
                \<longrightarrow> drop 1 (rparts ! k) \<noteq> drop 1 (rparts ! j))
          \<longrightarrow> ps (drop 1 (rparts ! j)) = Some (pp ! j)"
        by blast
      have a': "\<forall>name. (\<forall>j. i \<le> j \<and> j < length rparts \<and> strings_HasPrefix (rparts ! j) '':''
                  \<longrightarrow> drop 1 (rparts ! j) \<noteq> name) \<longrightarrow> ps name = params name"
        using a by (meson Suc_leD)
      have b': "\<forall>j. i \<le> j \<and> j < length rparts \<and> strings_HasPrefix (rparts ! j) '':'' \<and>
          (\<forall>k. j < k \<and> k < length rparts \<and> strings_HasPrefix (rparts ! k) '':''
                \<longrightarrow> drop 1 (rparts ! k) \<noteq> drop 1 (rparts ! j))
          \<longrightarrow> ps (drop 1 (rparts ! j)) = Some (pp ! j)"
        using b False by (metis Suc_leI le_neq_implies_less)
      show ?thesis using eq ps a' b' by simp
    next
      case True
      have ip: "i < length pp" using lt "1.prems" by simp
      let ?params = "params(drop 1 (rparts ! i) \<mapsto> pp ! i)"
      have eq: "parametersFor_loop rparts pp i params = parametersFor_loop rparts pp (Suc i) ?params"
        using lt True ip by (subst parametersFor_loop.simps) auto
      from 1(1) [OF lt True ip "1.prems"] obtain ps where
        ps: "parametersFor_loop rparts pp (Suc i) ?params = Inr ps"
        and a: "\<forall>name. (\<forall>j. Suc i \<le> j \<and> j < length rparts \<and> strings_HasPrefix (rparts ! j) '':''
                  \<longrightarrow> drop 1 (rparts ! j) \<noteq> name) \<longrightarrow> ps name = ?params name"
        and b: "\<forall>j. Suc i \<le> j \<and> j < length rparts \<and> strings_HasPrefix (rparts ! j) '':'' \<and>
          (\<forall>k. j < k \<and> k < length rparts \<and> strings_HasPrefix (rparts ! k) '':''
                \<longrightarrow> drop 1 (rparts ! k) \<noteq> drop 1 (rparts ! j))
          \<longrightarrow> ps (drop 1 (rparts ! j)) = Some (pp ! j)"
        by blast
      have a': "\<forall>name. (\<forall>j. i \<le> j \<and> j < length rparts \<and> strings_HasPrefix (rparts ! j) '':''
                  \<longrightarrow> drop 1 (rparts ! j) \<noteq> name) \<longrightarrow> ps name = params name"
      proof (intro allI impI)
        fix name
        assume h: "\<forall>j. i \<le> j \<and> j < length rparts \<and> strings_HasPrefix (rparts ! j) '':''
                  \<longrightarrow> drop 1 (rparts ! j) \<noteq> name"
        then have "drop 1 (rparts ! i) \<noteq> name" using lt True by blast
        moreover have "ps name = ?params name" using a h by (meson Suc_leD)
        ultimately show "ps name = params name" by simp
      qed
      have b': "\<forall>j. i \<le> j \<and> j < length rparts \<and> strings_HasPrefix (rparts ! j) '':'' \<and>
          (\<forall>k. j < k \<and> k < length rparts \<and> strings_HasPrefix (rparts ! k) '':''
                \<longrightarrow> drop 1 (rparts ! k) \<noteq> drop 1 (rparts ! j))
          \<longrightarrow> ps (drop 1 (rparts ! j)) = Some (pp ! j)"
      proof (intro allI impI)
        fix j
        assume h: "i \<le> j \<and> j < length rparts \<and> strings_HasPrefix (rparts ! j) '':'' \<and>
          (\<forall>k. j < k \<and> k < length rparts \<and> strings_HasPrefix (rparts ! k) '':''
                \<longrightarrow> drop 1 (rparts ! k) \<noteq> drop 1 (rparts ! j))"
        show "ps (drop 1 (rparts ! j)) = Some (pp ! j)"
        proof (cases "j = i")
          case False
          then have "Suc i \<le> j" using h by simp
          then show ?thesis using b h by blast
        next
          case True
          have "\<forall>k. Suc i \<le> k \<and> k < length rparts \<and> strings_HasPrefix (rparts ! k) '':''
                  \<longrightarrow> drop 1 (rparts ! k) \<noteq> drop 1 (rparts ! i)"
            using h True by (simp add: Suc_le_eq)
          then have "ps (drop 1 (rparts ! i)) = ?params (drop 1 (rparts ! i))"
            using a by blast
          then show ?thesis using True by simp
        qed
      qed
      show ?thesis using eq ps a' b' by simp
    qed
  qed
qed


lemma matchParts_iff:
  "matchParts r parts \<longleftrightarrow>
     length (Parts r) = length parts \<and>
     (\<forall>i<length parts. \<not> strings_HasPrefix (Parts r ! i) '':'' \<longrightarrow> Parts r ! i = parts ! i)"
  unfolding matchParts_def matchParts_loop_iff by auto

lemma matchingRoute_loop_none:
  "(\<forall>r\<in>set rts. \<not> matchParts r parts) \<Longrightarrow> matchingRoute_loop rts parts = Inr None"
  by (induction rts) auto

lemma matchingRoute_loop_first:
  assumes "\<forall>r'\<in>set pre. \<not> matchParts r' parts" and "matchParts r parts"
    and "parametersFor r parts = Inr ps"
  shows "matchingRoute_loop (pre @ r # post) parts = Inr (Some (r, ps))"
  using assms by (induction pre) auto

text \<open>
  Claim C5, as amended. For every route table and every inbound path:
  \<^item> a route matches the path iff both have the same number of parts (split on \<open>/\<close>) and
    every part of the route that does not start with a colon equals the part of the path at
    the same position; parts that start with a colon match anything;
  \<^item> \<^verbatim>\<open>matchingRoute\<close> returns no route when no registered route matches, and otherwise
    the first route in registration order that matches, never panicking;
  \<^item> the parameters returned with it hold no name that the route does not declare, and
    map the name of a parameter part to the path part at that position, verbatim, when no
    later part of the route declares the same name (the map is keyed by name, so of two
    parts with one name the later one is kept).
\<close>

theorem matchingRoute_first_match:
  "(matchParts r (strings_Split path) \<longleftrightarrow>
      length (Parts r) = length (strings_Split path) \<and>
      (\<forall>i<length (strings_Split path).
         \<not> strings_HasPrefix (Parts r ! i) '':'' \<longrightarrow> Parts r ! i = strings_Split path ! i)) \<and>
   ((\<forall>r'\<in>set (routes s). \<not> matchParts r' (strings_Split path)) \<longrightarrow>
      matchingRoute s path = Inr None) \<and>
   (routes s = pre @ r # post \<and> (\<forall>r'\<in>set pre. \<not> matchParts r' (strings_Split path)) \<and>
    matchParts r (strings_Split path) \<longrightarrow>
      (\<exists>ps. matchingRoute s path = Inr (Some (r, ps)) \<and>
         (\<forall>name. (\<forall>j<length (Parts r). strings_HasPrefix (Parts r ! j) '':''
                     \<longrightarrow> drop 1 (Parts r ! j) \<noteq> name) \<longrightarrow> ps name = None) \<and>
         (\<forall>j<length (Parts r). strings_HasPrefix (Parts r ! j) '':'' \<and>
              (\<forall>k<length (Parts r). j < k \<and> strings_HasPrefix (Parts r ! k) '':''
                 \<longrightarrow> drop 1 (Parts r ! k) \<noteq> drop 1 (Parts r ! j))
            \<longrightarrow> ps (drop 1 (Parts r ! j)) = Some (strings_Split path ! j))))"
proof (intro conjI impI)
  show "matchParts r (strings_Split path) \<longleftrightarrow>
      length (Parts r) = length (strings_Split path) \<and>
      (\<forall>i<length (strings_Split path).
         \<not> strings_HasPrefix (Parts r ! i) '':'' \<longrightarrow> Parts r ! i = strings_Split path ! i)"
    by (rule matchParts_iff)
next
  assume "\<forall>r'\<in>set (routes s). \<not> matchParts r' (strings_Split path)"
  then show "matchingRoute s path = Inr None"
    by (simp add: matchingRoute_def matchingRoute_loop_none)
next
  let ?parts = "strings_Split path"
  assume h: "routes s = pre @ r # post \<and> (\<forall>r'\<in>set pre. \<not> matchParts r' ?parts) \<and>
    matchParts r ?parts"
  then have len: "length (Parts r) \<le> length ?parts"
    by (simp add: matchParts_iff)
  from parametersFor_loop_ok [OF len, of 0 Map.empty] obtain ps where
    ps: "parametersFor r ?parts = Inr ps"
    and a: "\<forall>name. (\<forall>j. 0 \<le> j \<and> j < length (Parts r) \<and> strings_HasPrefix (Parts r ! j) '':''
                  \<longrightarrow> drop 1 (Parts r ! j) \<noteq> name) \<longrightarrow> ps name = Map.empty name"
    and b: "\<forall>j. 0 \<le> j \<and> j < length (Parts r) \<and> strings_HasPrefix (Parts r ! j) '':'' \<and>
          (\<forall>k. j < k \<and> k < length (Parts r) \<and> strings_HasPrefix (Parts r ! k) '':''
                \<longrightarrow> drop 1 (Parts r ! k) \<noteq> drop 1 (Parts r ! j))
          \<longrightarrow> ps (drop 1 (Parts r ! j)) = Some (?parts ! j)"
    unfolding parametersFor_def by blast
  have m: "matchingRoute s path = Inr (Some (r, ps))"
    using h ps by (simp add: matchingRoute_def matchingRoute_loop_first)
  have a': "\<forall>name. (\<forall>j<length (Parts r). strings_HasPrefix (Parts r ! j) '':''
                     \<longrightarrow> drop 1 (Parts r ! j) \<noteq> name) \<longrightarrow> ps name = None"
    using a by simp
  have b': "\<forall>j<length (Parts r). strings_HasPrefix (Parts r ! j) '':'' \<and>
              (\<forall>k<length (Parts r). j < k \<and> strings_HasPrefix (Parts r ! k) '':''
                 \<longrightarrow> drop 1 (Parts r ! k) \<noteq> drop 1 (Parts r ! j))
            \<longrightarrow> ps (drop 1 (Parts r ! j)) = Some (?parts ! j)"
    using b by simp
  show "\<exists>ps. matchingRoute s path = Inr (Some (r, ps)) \<and>
         (\<forall>name. (\<forall>j<length (Parts r). strings_HasPrefix (Parts r ! j) '':''
                     \<longrightarrow> drop 1 (Parts r ! j) \<noteq> name) \<longrightarrow> ps name = None) \<and>
         (\<forall>j<length (Parts r). strings_HasPrefix (Parts r ! j) '':'' \<and>
              (\<forall>k<length (Parts r). j < k \<and> strings_HasPrefix (Parts r ! k) '':''
                 \<longrightarrow> drop 1 (Parts r ! k) \<noteq> drop 1 (Parts r ! j))
            \<longrightarrow> ps (drop 1 (Parts r ! j)) = Some (?parts ! j))"
    using m a' b' by blast
qed

text \<open>
  Claim C5 as stated asks that the value captured for every parameter part is the path
  part at its position. For the route \<open>/:id/:id\<close> and the path \<open>/a/b\<close> the route
  matches, the part at position 1 is the parameter \<open>id\<close> and the path part there is
  \<open>a\<close>, yet the value captured for \<open>id\<close> is \<open>b\<close>.
\<close>

theorem parametersFor_duplicate_name_counterexample:
  "Parts (newRoute ''/:id/:id'' () []) = ['''', '':id'', '':id''] \<and>
   strings_Split ''/a/b'' = ['''', ''a'', ''b''] \<and>
   matchParts (newRoute ''/:id/:id'' () []) (strings_Split ''/a/b'') \<and>
   (case parametersFor (newRoute ''/:id/:id'' () []) (strings_Split ''/a/b'') of
      Inl p \<Rightarrow> None | Inr ps \<Rightarrow> ps ''id'') = Some ''b'' \<and>
   (case parametersFor (newRoute ''/:id/:id'' () []) (strings_Split ''/a/b'') of
      Inl p \<Rightarrow> None | Inr ps \<Rightarrow> ps (drop 1 (Parts (newRoute ''/:id/:id'' () []) ! 1)))
     \<noteq> Some (strings_Split ''/a/b'' ! 1)"
  by (simp add: matchParts_def matchParts_loop.simps parametersFor_def
      parametersFor_loop.simps newRoute_def strings_HasPrefix_def)

text \<open>
  The theorem at a table of three routes, where the second is the first to match
  \<open>/hello/bob\<close>: it is returned with \<open>name\<close> bound to \<open>bob\<close>.
\<close>

theorem matchingRoute_first_match_witness:
  "\<exists>ps. matchingRoute
          \<lparr>Port = 8080, ProxyTimeout = 10, routes =
             [newRoute ''/hello/world'' () [], newRoute ''/hello/:name'' () [],
              newRoute ''/:a/:b'' () []],
           Target = ''http://upstream'', DefaultPageTitle = ''Home'', ignoreHeaders = {}\<rparr>
          ''/hello/bob''
        = Inr (Some (newRoute ''/hello/:name'' () [], ps)) \<and>
        ps ''name'' = Some ''bob'' \<and> ps ''a'' = None"
proof -
  let ?r = "newRoute ''/hello/:name'' () []"
  let ?s = "\<lparr>Port = 8080, ProxyTimeout = 10, routes =
             [newRoute ''/hello/world'' () [], ?r, newRoute ''/:a/:b'' () []],
           Target = ''http://upstream'', DefaultPageTitle = ''Home'', ignoreHeaders = {}\<rparr>"
  have h: "routes ?s = [newRoute ''/hello/world'' () []] @ ?r # [newRoute ''/:a/:b'' () []] \<and>
     (\<forall>r'\<in>set [newRoute ''/hello/world'' () []]. \<not> matchParts r' (strings_Split ''/hello/bob'')) \<and>
     matchParts ?r (strings_Split ''/hello/bob'')"
    by (simp add: matchParts_def matchParts_loop.simps newRoute_def strings_HasPrefix_def)
  from matchingRoute_first_match [of ?r "''/hello/bob''" ?s
      "[newRoute ''/hello/world'' () []]" "[newRoute ''/:a/:b'' () []]"] h
  obtain ps where m: "matchingRoute ?s ''/hello/bob'' = Inr (Some (?r, ps))"
    and a: "\<forall>name. (\<forall>j<length (Parts ?r). strings_HasPrefix (Parts ?r ! j) '':''
                     \<longrightarrow> drop 1 (Parts ?r ! j) \<noteq> name) \<longrightarrow> ps name = None"
    and b: "\<forall>j<length (Parts ?r). strings_HasPrefix (Parts ?r ! j) '':'' \<and>
              (\<forall>k<length (Parts ?r). j < k \<and> strings_HasPrefix (Parts ?r ! k) '':''
                 \<longrightarrow> drop 1 (Parts ?r ! k) \<noteq> drop 1 (Parts ?r ! j))
            \<longrightarrow> ps (drop 1 (Parts ?r ! j)) = Some (strings_Split ''/hello/bob'' ! j)"
    by blast
  have p: "Parts ?r = ['''', ''hello'', '':name'']" by (simp add: newRoute_def)
  have "ps ''name'' = Some ''bob''"
    using b [rule_format, of 2] by (simp add: p strings_HasPrefix_def less_Suc_eq)
  moreover have "\<forall>j<length (Parts ?r). strings_HasPrefix (Parts ?r ! j) '':''
      \<longrightarrow> drop 1 (Parts ?r ! j) \<noteq> ''a''"
    by (auto simp: p strings_HasPrefix_def less_Suc_eq)
  then have "ps ''a'' = None"
    using a by blast
  ultimately show ?thesis using m by blast
qed

section \<open>Properties of the response assembly and of the handler\<close>

lemma SetFragments_loop_content:
  "fst (SetFragments_loop results c t) = c @ concat (map Body results)"
  by (induction results arbitrary: c t) auto

lemma SetFragments_loop_title:
  "snd (SetFragments_loop results c t) =
     (let titles = filter (\<lambda>x. x \<noteq> [])
            (map (\<lambda>r. Header_Get (Resp_Header (HttpResponse r)) ''X-View-Proxy-Title'') results)
      in if titles = [] then t else last titles)"
  by (induction results arbitrary: c t) (auto simp: Let_def)

lemma ServeHTTP_loop_content:
  "fst (ServeHTTP_loop results c t lg) = c @ concat (map Body results)"
  by (induction results arbitrary: c t lg) auto

lemma ServeHTTP_loop_title:
  "fst (snd (ServeHTTP_loop results c t lg)) =
     (let titles = filter (\<lambda>x. x \<noteq> [])
            (map (\<lambda>r. Header_Get (Resp_Header (HttpResponse r)) ''X-View-Proxy-Title'') results)
      in if titles = [] then t else last titles)"
  by (induction results arbitrary: c t lg) (auto simp: Let_def)

text \<open>
  Claim C8. For every ordered list of fragment results, the resolved page title is the
  value of the \<^verbatim>\<open>X-View-Proxy-Title\<close> header of the last fragment, in input order, whose
  header is not empty, and the configured default title when no fragment has a non-empty
  one. This holds for the title \<^verbatim>\<open>SetFragments\<close> substitutes and for the title the loop
  of \<^verbatim>\<open>ServeHTTP\<close> leaves, whatever content and log the loop starts from.
\<close>

theorem pageTitle_last_fragment_wins:
  "SetFragments_pageTitle rb results =
     (let titles = filter (\<lambda>x. x \<noteq> [])
            (map (\<lambda>r. Header_Get (Resp_Header (HttpResponse r)) ''X-View-Proxy-Title'') results)
      in if titles = [] then DefaultPageTitle (rb_server rb) else last titles) \<and>
   fst (snd (ServeHTTP_loop results c (DefaultPageTitle s) lg)) =
     (let titles = filter (\<lambda>x. x \<noteq> [])
            (map (\<lambda>r. Header_Get (Resp_Header (HttpResponse r)) ''X-View-Proxy-Title'') results)
      in if titles = [] then DefaultPageTitle s else last titles)"
proof
  let ?titles = "filter (\<lambda>x. x \<noteq> [])
            (map (\<lambda>r. Header_Get (Resp_Header (HttpResponse r)) ''X-View-Proxy-Title'') results)"
  have nonempty: "?titles \<noteq> [] \<Longrightarrow> last ?titles \<noteq> []"
    using last_in_set [of ?titles] by auto
  show "SetFragments_pageTitle rb results =
     (let titles = ?titles in if titles = [] then DefaultPageTitle (rb_server rb) else last titles)"
    using nonempty by (simp add: SetFragments_pageTitle_def SetFragments_loop_title Let_def)
  show "fst (snd (ServeHTTP_loop results c (DefaultPageTitle s) lg)) =
     (let titles = ?titles in if titles = [] then DefaultPageTitle s else last titles)"
    by (rule ServeHTTP_loop_title)
qed

lemma bytes_Replace1_absent:
  "\<forall>pre post. s \<noteq> pre @ old @ post \<Longrightarrow> bytes_Replace1 s old new = s"
proof (induction s)
  case Nil
  then show ?case by auto
next
  case (Cons c cs)
  have np: "\<not> strings_HasPrefix (c # cs) old"
  proof
    assume "strings_HasPrefix (c # cs) old"
    then have "c # cs = [] @ old @ drop (length old) (c # cs)"
      by (metis append_Nil append_take_drop_id strings_HasPrefix_def)
    with Cons.prems show False by blast
  qed
  have "\<forall>pre post. cs \<noteq> pre @ old @ post"
  proof (intro allI notI)
    fix pre post assume "cs = pre @ old @ post"
    then have "c # cs = (c # pre) @ old @ post" by simp
    with Cons.prems show False by blast
  qed
  with Cons.IH np show ?case by simp
qed

lemma bytes_Replace1_first:
  "s = pre @ old @ post \<Longrightarrow>
   \<forall>pre' post'. s = pre' @ old @ post' \<longrightarrow> length pre \<le> length pre' \<Longrightarrow>
   bytes_Replace1 s old new = pre @ new @ post"
proof (induction pre arbitrary: s)
  case Nil
  then have s: "s = old @ post" by simp
  show ?case
  proof (cases s)
    case Nil
    with s show ?thesis by simp
  next
    case (Cons c cs)
    have "strings_HasPrefix (c # cs) old"
      using s Cons by (simp add: strings_HasPrefix_def)
    moreover have "drop (length old) (c # cs) = post" using s Cons by simp
    ultimately show ?thesis using Cons by simp
  qed
next
  case (Cons c pre)
  let ?cs = "pre @ old @ post"
  have s: "s = c # ?cs" using Cons.prems(1) by simp
  have np: "\<not> strings_HasPrefix (c # ?cs) old"
  proof
    assume "strings_HasPrefix (c # ?cs) old"
    then have "c # ?cs = [] @ old @ drop (length old) (c # ?cs)"
      by (metis append_Nil append_take_drop_id strings_HasPrefix_def)
    then have "length (c # pre) \<le> length ([]::string)"
      using Cons.prems(2) s by blast
    then show False by simp
  qed
  have min: "\<forall>pre' post'. ?cs = pre' @ old @ post' \<longrightarrow> length pre \<le> length pre'"
  proof (intro allI impI)
    fix pre' post' assume "?cs = pre' @ old @ post'"
    then have "s = (c # pre') @ old @ post'" using s by simp
    then have "length (c # pre) \<le> length (c # pre')" using Cons.prems(2) by blast
    then show "length pre \<le> length pre'" by simp
  qed
  have "bytes_Replace1 ?cs old new = pre @ new @ post"
    using Cons.IH [OF refl min] .
  then show ?case using s np by simp
qed

lemma bytes_Replace1_replaced_first:
  "replaced_first s old new (bytes_Replace1 s old new)"
proof (cases "\<forall>pre post. s \<noteq> pre @ old @ post")
  case True
  then show ?thesis by (simp add: replaced_first_def bytes_Replace1_absent)
next
  case False
  define P where "P n \<longleftrightarrow> (\<exists>pre post. s = pre @ old @ post \<and> length pre = n)" for n
  from False have "\<exists>n. P n" unfolding P_def by blast
  then obtain n where n: "P n" and least: "\<And>m. P m \<Longrightarrow> n \<le> m"
    by (metis LeastI Least_le)
  from n obtain pre post where sp: "s = pre @ old @ post" and len: "length pre = n"
    unfolding P_def by blast
  have min: "\<forall>pre' post'. s = pre' @ old @ post' \<longrightarrow> length pre \<le> length pre'"
    using least len unfolding P_def by blast
  have "bytes_Replace1 s old new = pre @ new @ post"
    using bytes_Replace1_first [OF sp min] .
  then show ?thesis unfolding replaced_first_def using sp min by blast
qed

text \<open>
  Claim C7, as amended. For every ordered list of fragment results and every layout body:
  when there is no layout body (it is empty) the outbound body is the concatenation of the
  fragment bodies in input order; otherwise the first occurrence of the content token in
  the layout body is replaced by that concatenation (a layout without the token stays as
  it is), and then the first occurrence of the title token in the buffer that results is
  replaced by the resolved title (a buffer without the token stays as it is).
\<close>

theorem SetFragments_body_composition:
  "(rb_body rb = [] \<longrightarrow> rb_body (SetFragments rb results) = concat (map Body results)) \<and>
   (rb_body rb \<noteq> [] \<longrightarrow>
      (\<exists>mid. replaced_first (rb_body rb) VIEW_PROXY_CONTENT (concat (map Body results)) mid \<and>
             replaced_first mid VIEW_PROXY_PAGE_TITLE (SetFragments_pageTitle rb results)
               (rb_body (SetFragments rb results))))"
proof (intro conjI impI)
  assume "rb_body rb = []"
  then show "rb_body (SetFragments rb results) = concat (map Body results)"
    by (simp add: SetFragments_def SetFragments_loop_content Let_def)
next
  assume ne: "rb_body rb \<noteq> []"
  let ?content = "concat (map Body results)"
  let ?mid = "bytes_Replace1 (rb_body rb) VIEW_PROXY_CONTENT ?content"
  have body: "rb_body (SetFragments rb results) =
      bytes_Replace1 ?mid VIEW_PROXY_PAGE_TITLE (SetFragments_pageTitle rb results)"
    using ne by (simp add: SetFragments_def SetFragments_loop_content Let_def)
  have "replaced_first (rb_body rb) VIEW_PROXY_CONTENT ?content ?mid"
    by (rule bytes_Replace1_replaced_first)
  moreover have "replaced_first ?mid VIEW_PROXY_PAGE_TITLE (SetFragments_pageTitle rb results)
      (rb_body (SetFragments rb results))"
    unfolding body by (rule bytes_Replace1_replaced_first)
  ultimately show "\<exists>mid. replaced_first (rb_body rb) VIEW_PROXY_CONTENT ?content mid \<and>
      replaced_first mid VIEW_PROXY_PAGE_TITLE (SetFragments_pageTitle rb results)
        (rb_body (SetFragments rb results))"
    by blast
qed

lemma ev_body:
  "rb_body (SetFragments
       (SetLayout (newResponseBuilder home_server)
          (frag_result ''l'' ''<html>{{{VIEW_PROXY_CONTENT}}} - {{{VIEW_PROXY_PAGE_TITLE}}}</html>'' Map.empty))
       [frag_result ''a'' ''A'' Map.empty, frag_result ''b'' ''B'' Map.empty])
   = ''<html>AB - Home</html>''"
  by (simp add: SetFragments_def SetFragments_pageTitle_def SetLayout_def newResponseBuilder_def
      frag_result_def home_server_def Header_Get_def strings_HasPrefix_def
      VIEW_PROXY_CONTENT_def VIEW_PROXY_PAGE_TITLE_def Let_def)

text \<open>
  Claim C7 as stated has both tokens replaced in the layout body. For the layout
  \<open><{{{VIEW_PROXY_CONTENT}}}|{{{VIEW_PROXY_PAGE_TITLE}}}>\<close>, one fragment whose body is
  the text of the title token, and the default title \<open>Home\<close>, the code puts the title
  where the fragment body went and leaves the layout's title token in place; the
  composition the claim describes keeps the fragment body and replaces the layout's token.
\<close>

theorem SetFragments_title_token_in_content_counterexample:
  "rb_body (SetFragments
       (SetLayout (newResponseBuilder home_server)
          (frag_result ''l'' ''<{{{VIEW_PROXY_CONTENT}}}|{{{VIEW_PROXY_PAGE_TITLE}}}>'' Map.empty))
       [frag_result ''a'' ''{{{VIEW_PROXY_PAGE_TITLE}}}'' Map.empty])
     = ''<Home|{{{VIEW_PROXY_PAGE_TITLE}}}>'' \<and>
   spec_layout_composed ''<{{{VIEW_PROXY_CONTENT}}}|{{{VIEW_PROXY_PAGE_TITLE}}}>''
       ''{{{VIEW_PROXY_PAGE_TITLE}}}'' ''Home''
     = ''<{{{VIEW_PROXY_PAGE_TITLE}}}|Home>'' \<and>
   rb_body (SetFragments
       (SetLayout (newResponseBuilder home_server)
          (frag_result ''l'' ''<{{{VIEW_PROXY_CONTENT}}}|{{{VIEW_PROXY_PAGE_TITLE}}}>'' Map.empty))
       [frag_result ''a'' ''{{{VIEW_PROXY_PAGE_TITLE}}}'' Map.empty])
     \<noteq> spec_layout_composed ''<{{{VIEW_PROXY_CONTENT}}}|{{{VIEW_PROXY_PAGE_TITLE}}}>''
       ''{{{VIEW_PROXY_PAGE_TITLE}}}'' ''Home''"
  by (simp add: SetFragments_def SetFragments_pageTitle_def SetLayout_def newResponseBuilder_def
      frag_result_def home_server_def Header_Get_def strings_HasPrefix_def spec_layout_composed_def
      VIEW_PROXY_CONTENT_def VIEW_PROXY_PAGE_TITLE_def Let_def)

lemma ev_spec: "spec_layout_composed ''<html>{{{VIEW_PROXY_CONTENT}}} - {{{VIEW_PROXY_PAGE_TITLE}}}</html>'' ''AB'' ''Home'' = ''<html>AB - Home</html>''"
  by (simp add: strings_HasPrefix_def spec_layout_composed_def
      VIEW_PROXY_CONTENT_def VIEW_PROXY_PAGE_TITLE_def Let_def)

text \<open>
  The theorem at the specification's example, with the tokens of the code: the layout
  \<open><html>{{{VIEW_PROXY_CONTENT}}} - {{{VIEW_PROXY_PAGE_TITLE}}}</html>\<close>, the fragment bodies
  \<open>A\<close> and \<open>B\<close>, no title header and the default title \<open>Home\<close>.
\<close>

theorem SetFragments_body_composition_witness:
  "\<exists>mid. replaced_first ''<html>{{{VIEW_PROXY_CONTENT}}} - {{{VIEW_PROXY_PAGE_TITLE}}}</html>''
            VIEW_PROXY_CONTENT ''AB'' mid \<and>
         replaced_first mid VIEW_PROXY_PAGE_TITLE ''Home'' ''<html>AB - Home</html>''"
proof -
  let ?rb = "SetLayout (newResponseBuilder home_server)
          (frag_result ''l'' ''<html>{{{VIEW_PROXY_CONTENT}}} - {{{VIEW_PROXY_PAGE_TITLE}}}</html>'' Map.empty)"
  let ?rs = "[frag_result ''a'' ''A'' Map.empty, frag_result ''b'' ''B'' Map.empty]"
  have b: "rb_body ?rb = ''<html>{{{VIEW_PROXY_CONTENT}}} - {{{VIEW_PROXY_PAGE_TITLE}}}</html>''"
    by (simp add: SetLayout_def frag_result_def)
  have c: "concat (map Body ?rs) = ''AB''"
    by (simp add: frag_result_def)
  have t: "SetFragments_pageTitle ?rb ?rs = ''Home''"
    by (simp add: SetFragments_pageTitle_def SetLayout_def newResponseBuilder_def
        frag_result_def home_server_def Header_Get_def)
  have o: "rb_body (SetFragments ?rb ?rs) = ''<html>AB - Home</html>''"
    by (simp add: SetFragments_def SetFragments_pageTitle_def SetLayout_def newResponseBuilder_def
      frag_result_def home_server_def Header_Get_def strings_HasPrefix_def
      VIEW_PROXY_CONTENT_def VIEW_PROXY_PAGE_TITLE_def Let_def)
  have "rb_body ?rb \<noteq> []" by (simp add: b)
  with SetFragments_body_composition [of ?rb ?rs]
  have "\<exists>mid. replaced_first (rb_body ?rb) VIEW_PROXY_CONTENT (concat (map Body ?rs)) mid \<and>
             replaced_first mid VIEW_PROXY_PAGE_TITLE (SetFragments_pageTitle ?rb ?rs)
               (rb_body (SetFragments ?rb ?rs))"
    by blast
  then show ?thesis unfolding b c t o .
qed

text \<open>
  The theorem at four fragments whose title headers are \<open>First\<close>, none, \<open>Last\<close> and
  the empty string: the title is \<open>Last\<close>; and at one fragment without the header: the
  title is the default \<open>Home\<close>.
\<close>

theorem pageTitle_last_fragment_wins_witness:
  "SetFragments_pageTitle (newResponseBuilder home_server)
      [frag_result ''a'' ''A'' [''X-View-Proxy-Title'' \<mapsto> [''First'']],
       frag_result ''b'' ''B'' Map.empty,
       frag_result ''c'' ''C'' [''X-View-Proxy-Title'' \<mapsto> [''Last'']],
       frag_result ''d'' ''D'' [''X-View-Proxy-Title'' \<mapsto> ['''']]] = ''Last'' \<and>
   SetFragments_pageTitle (newResponseBuilder home_server)
      [frag_result ''b'' ''B'' Map.empty] = ''Home''"
proof
  have t: "filter (\<lambda>x. x \<noteq> [])
            (map (\<lambda>r. Header_Get (Resp_Header (HttpResponse r)) ''X-View-Proxy-Title'')
      [frag_result ''a'' ''A'' [''X-View-Proxy-Title'' \<mapsto> [''First'']],
       frag_result ''b'' ''B'' Map.empty,
       frag_result ''c'' ''C'' [''X-View-Proxy-Title'' \<mapsto> [''Last'']],
       frag_result ''d'' ''D'' [''X-View-Proxy-Title'' \<mapsto> ['''']]]) = [''First'', ''Last'']"
    by (simp add: frag_result_def Header_Get_def)
  show "SetFragments_pageTitle (newResponseBuilder home_server)
      [frag_result ''a'' ''A'' [''X-View-Proxy-Title'' \<mapsto> [''First'']],
       frag_result ''b'' ''B'' Map.empty,
       frag_result ''c'' ''C'' [''X-View-Proxy-Title'' \<mapsto> [''Last'']],
       frag_result ''d'' ''D'' [''X-View-Proxy-Title'' \<mapsto> ['''']]] = ''Last''"
    unfolding pageTitle_last_fragment_wins [THEN conjunct1] t by simp
  have u: "filter (\<lambda>x. x \<noteq> [])
            (map (\<lambda>r. Header_Get (Resp_Header (HttpResponse r)) ''X-View-Proxy-Title'')
      [frag_result ''b'' ''B'' Map.empty]) = []"
    by (simp add: frag_result_def Header_Get_def)
  show "SetFragments_pageTitle (newResponseBuilder home_server)
      [frag_result ''b'' ''B'' Map.empty] = ''Home''"
    unfolding pageTitle_last_fragment_wins [THEN conjunct1] u
    by (simp add: newResponseBuilder_def home_server_def)
qed

text \<open>
  Claim C4. When a route matches, the URLs are built and the aggregate fetch returns an
  error with an empty result slice, \<^verbatim>\<open>ServeHTTP\<close> logs the error and then reads
  \<^verbatim>\<open>results[0]\<close>: the handler ends in an index-out-of-range panic, with the failure as
  the last entry of the log and nothing written to the response.
\<close>

theorem ServeHTTP_reads_results_after_error:
  assumes "matchingRoute s path = Inr (Some (route, parameters))"
    and "constructLayoutUrl lib s (Layout route) parameters = Inr layoutUrl"
    and "constructFragmentUrls lib s (fragments route) parameters = Inr fragmentUrls"
    and "Fetch (layoutUrl # fragmentUrls) (ProxyTimeout s) = (Slice [], Some err)"
  shows "ServeHTTP lib Fetch s path = ([Handling path, Errored err], Inl IndexOutOfRange)"
  using assms by (simp add: ServeHTTP_def ServeHTTP_fetched_def)

lemma home_match:
  "matchingRoute home_server ''/'' = Inr (Some (newRoute ''/'' ''main'' [''body''], Map.empty))"
  by (simp add: home_server_def matchingRoute_def matchParts_def matchParts_loop.simps
      parametersFor_def parametersFor_loop.simps newRoute_def strings_HasPrefix_def)

lemma home_layout: "constructLayoutUrl example_lib home_server ''main'' Map.empty
    = Inr ''http://upstream/layouts/main''"
  by (simp add: constructLayoutUrl_def example_lib_def home_server_def)

lemma home_frags: "constructFragmentUrls example_lib home_server [''body''] Map.empty
    = Inr [''http://upstream/body'']"
  apply (simp add: constructFragmentUrl_def)
  apply (simp add: example_lib_def home_server_def)
  done

text \<open>
  An execution of that kind: the server with the route \<open>/\<close>, a request for \<open>/\<close>, and an
  aggregate fetch that times out.
\<close>

theorem ServeHTTP_reads_results_after_error_witness:
  "ServeHTTP example_lib (\<lambda>urls timeout. (Slice [], Some (Lib DeadlineExceeded))) home_server ''/''
     = ([Handling ''/'', Errored (Lib DeadlineExceeded)], Inl IndexOutOfRange)"
proof -
  have l: "constructLayoutUrl example_lib home_server
             (Layout (newRoute ''/'' ''main'' [''body''])) Map.empty
           = Inr ''http://upstream/layouts/main''"
    using home_layout by (simp add: newRoute_def)
  have f: "constructFragmentUrls example_lib home_server
             (fragments (newRoute ''/'' ''main'' [''body''])) Map.empty
           = Inr [''http://upstream/body'']"
    using home_frags by (simp add: newRoute_def)
  show ?thesis
    by (rule ServeHTTP_reads_results_after_error
          [where Fetch = "\<lambda>urls timeout. (Slice [], Some (Lib DeadlineExceeded))",
            OF home_match l f]) simp
qed


section \<open>Properties of the multiplexer\<close>

lemma fetchUrl_passes_bytes_through:
  assumes "roundTrip \<lparr>Req_Method = method, Req_Url = u, Req_Header = headers, Req_Body = body\<rparr>
             = Inr (resp, d)"
    and "Header_Get (Resp_Header resp) ''Content-Encoding'' \<noteq> ''gzip''"
    and "fetchUrl lib r roundTrip method u headers body = Inr result"
  shows "Body result = Data (Resp_Body resp) \<and> ReadErr (Resp_Body resp) = None"
  using assms
  by (auto simp: fetchUrl_def fetchUrl_result_def ioutil_ReadAll_def Let_def
      split: option.splits if_splits)

lemma fetchUrl_gzip_header_error:
  assumes "roundTrip \<lparr>Req_Method = method, Req_Url = u, Req_Header = headers, Req_Body = body\<rparr>
             = Inr (resp, d)"
    and "Header_Get (Resp_Header resp) ''Content-Encoding'' = ''gzip''"
    and "gzip_NewReader lib (Resp_Body resp) = Inl e"
  shows "fetchUrl lib r roundTrip method u headers body = Inl (Lib e)"
  using assms by (simp add: fetchUrl_def)

lemma fetchUrl_gzip_decompressed:
  assumes "roundTrip \<lparr>Req_Method = method, Req_Url = u, Req_Header = headers, Req_Body = body\<rparr>
             = Inr (resp, d)"
    and "Header_Get (Resp_Header resp) ''Content-Encoding'' = ''gzip''"
    and "gzip_NewReader lib (Resp_Body resp) = Inr rd"
    and "fetchUrl lib r roundTrip method u headers body = Inr result"
  shows "Body result = Data rd"
  using assms
  by (auto simp: fetchUrl_def fetchUrl_result_def ioutil_ReadAll_def Let_def
      split: option.splits if_splits)

text \<open>
  Claim C9 asks that a decompression failure makes the fetch return an error and no
  result. The code does so only for a failure of \<^verbatim>\<open>gzip.NewReader\<close> (lemma
  \<open>fetchUrl_gzip_header_error\<close>). When the header is accepted and reading the
  decompressed stream fails, for every response with a 2xx status that declares gzip
  \<^verbatim>\<open>fetchUrl\<close> returns a result, whose body is the bytes read before the failure, and
  no error.
\<close>

theorem fetchUrl_gzip_read_error_dropped:
  assumes "roundTrip \<lparr>Req_Method = method, Req_Url = u, Req_Header = headers, Req_Body = body\<rparr>
             = Inr (resp, d)"
    and "Header_Get (Resp_Header resp) ''Content-Encoding'' = ''gzip''"
    and "gzip_NewReader lib (Resp_Body resp) = Inr rd"
    and "ReadErr rd = Some e"
    and "200 \<le> Resp_StatusCode resp \<and> Resp_StatusCode resp \<le> 299"
  shows "fetchUrl lib r roundTrip method u headers body =
           Inr \<lparr>Url = u, Duration = d, HttpResponse = resp, Body = Data rd,
                StatusCode = Resp_StatusCode resp\<rparr>"
  using assms
  by (simp add: fetchUrl_def fetchUrl_result_def ioutil_ReadAll_def Let_def)

text \<open>
  The failing input: a response with status 200 and \<^verbatim>\<open>Content-Encoding: gzip\<close> whose
  body ends after the gzip header. The fetch succeeds with an empty body.
\<close>

theorem fetchUrl_gzip_read_error_dropped_witness:
  "fetchUrl truncated_gzip_lib (NewRequest (\<lambda>i req. Inr (truncated_gzip_response, 5)))
       (\<lambda>req. Inr (truncated_gzip_response, 5)) ''GET'' ''http://upstream/body'' Map.empty None
     = Inr \<lparr>Url = ''http://upstream/body'', Duration = 5, HttpResponse = truncated_gzip_response,
            Body = [], StatusCode = 200\<rparr>"
proof -
  have 1: "Header_Get (Resp_Header truncated_gzip_response) ''Content-Encoding'' = ''gzip''"
    by (simp add: truncated_gzip_response_def Header_Get_def)
  have 2: "gzip_NewReader truncated_gzip_lib (Resp_Body truncated_gzip_response)
      = Inr \<lparr>Data = [], ReadErr = Some (LibError ''unexpected EOF'')\<rparr>"
    by (simp add: truncated_gzip_response_def truncated_gzip_lib_def)
  have 3: "ReadErr \<lparr>Data = [], ReadErr = Some (LibError ''unexpected EOF'')\<rparr>
      = Some (LibError ''unexpected EOF'')"
    by simp
  have 4: "200 \<le> Resp_StatusCode truncated_gzip_response \<and>
      Resp_StatusCode truncated_gzip_response \<le> 299"
    by (simp add: truncated_gzip_response_def)
  have "fetchUrl truncated_gzip_lib (NewRequest (\<lambda>i req. Inr (truncated_gzip_response, 5)))
       (\<lambda>req. Inr (truncated_gzip_response, 5)) ''GET'' ''http://upstream/body'' Map.empty None
     = Inr \<lparr>Url = ''http://upstream/body'', Duration = 5, HttpResponse = truncated_gzip_response,
            Body = Data \<lparr>Data = [], ReadErr = Some (LibError ''unexpected EOF'')\<rparr>,
            StatusCode = Resp_StatusCode truncated_gzip_response\<rparr>"
    by (rule fetchUrl_gzip_read_error_dropped [OF _ 1 2 3 4]) simp
  then show ?thesis by (simp add: truncated_gzip_response_def)
qed



lemma length_insert_stable [simp]: "length (insert_stable lt x ys) = Suc (length ys)"
  by (induction ys) auto

lemma length_sort_SliceStable [simp]: "length (sort_SliceStable lt xs) = length xs"
  unfolding sort_SliceStable_def by (induction xs) auto























end
